theory Spec2Isabelle
  imports Complex_Main "HOL-Library.Char_ord" "HOL-Library.List_Lexorder" "HOL-Library.Log_Nat"
begin

section \<open>The survey table\<close>

text \<open>
  \<^verbatim>\<open>src/api.py\<close> reads a CSV file into the pandas DataFrame \<^verbatim>\<open>df\<close> once and answers three
  read-only queries over it. The DataFrame is a list of rows in file order; the global
  \<^verbatim>\<open>df\<close> is the first argument of every endpoint below.

  A Python \<^verbatim>\<open>str\<close> is a sequence of code points. Here it is a \<open>string\<close> in which each
  \<open>char\<close> stands for the code point of the same number (U+0000 to U+00FF, not a UTF-8
  byte), so the strings covered are those of the Latin-1 range. A cell of a categorical
  column that the CSV leaves empty is read by pandas as a missing value: \<open>None\<close>.
  \<^verbatim>\<open>policy_support\<close> is an integer column without missing cells.
\<close>

record respondent =
  gender :: "string option"
  race :: "string option"
  age_group :: "string option"
  education :: "string option"
  income :: "string option"
  policy_support :: int

type_synonym dataframe = "respondent list"

text \<open>
  A Python float is a binary64 number: NaN, or a finite number, given by its exact value.
  Every finite float below is a result of \<open>binary64\<close>.
\<close>

datatype pyfloat = NaN | Fin rat

text \<open>
  The exceptions of the endpoints. Only \<^verbatim>\<open>HTTPException\<close> is raised by the source itself
  and carries its status code; the other two come out of pandas and reach the client as
  the status 500.
\<close>

datatype error =
  HTTPException (status_code: nat) (detail: string)
  | KeyError string
  | AttributeError string

record aggregate_result =
  count :: nat
  support_rate :: pyfloat

section \<open>Strings\<close>

text \<open>
  \<^verbatim>\<open>str.casefold\<close>, by code point, for U+0000 to U+00FF (Unicode CaseFolding.txt, statuses
  C and F): the capital letters A to Z and U+00C0 to U+00DE except the multiplication sign
  U+00D7 move up by 32, the micro sign U+00B5 folds to the Greek mu U+03BC, the sharp s
  U+00DF folds to the two letters \<^verbatim>\<open>ss\<close>. The result is a list of code points, since
  U+03BC lies outside the range of \<open>char\<close>.
\<close>

definition casefold_char :: "char \<Rightarrow> nat list" where
  "casefold_char c =
     (let n = (of_char c :: nat) in
      if 65 \<le> n \<and> n \<le> 90 then [n + 32]
      else if n = 181 then [956]
      else if 192 \<le> n \<and> n \<le> 222 \<and> n \<noteq> 215 then [n + 32]
      else if n = 223 then [115, 115]
      else [n])"

definition casefold :: "string \<Rightarrow> nat list" where
  "casefold s = concat (map casefold_char s)"

text \<open>
  \<^verbatim>\<open>str.lower\<close> on the same range, the function the specification names: the capital
  letters move up by 32 and every other code point, the sharp s and the micro sign
  included, stays.
\<close>

definition lower_char :: "char \<Rightarrow> char" where
  "lower_char c =
     (let n = (of_char c :: nat) in
      if (65 \<le> n \<and> n \<le> 90) \<or> (192 \<le> n \<and> n \<le> 222 \<and> n \<noteq> 215) then char_of (n + 32)
      else c)"

definition lower :: "string \<Rightarrow> string" where
  "lower s = map lower_char s"

section \<open>Floats\<close>

text \<open>
  Rounding to the nearest integer, a tie going to the even neighbour.
\<close>

definition round_half_even :: "rat \<Rightarrow> int" where
  "round_half_even x =
     (let f = \<lfloor>x\<rfloor>; d = x - of_int f in
      if d < 1 / 2 then f
      else if 1 / 2 < d then f + 1
      else if even f then f else f + 1)"

text \<open>
  The binary exponent of a rational other than 0: the \<open>e\<close> with
  \<open>2 ^ e \<le> \<bar>x\<bar> < 2 ^ (e + 1)\<close>. With \<open>\<bar>x\<bar> = a / b\<close> in lowest terms it is the
  difference of the bit lengths of \<open>a\<close> and \<open>b\<close>, or one less.
\<close>

definition binexp :: "rat \<Rightarrow> int" where
  "binexp x =
     (case quotient_of \<bar>x\<bar> of (a, b) \<Rightarrow>
        let d = bitlen a - bitlen b in if 2 powi d \<le> \<bar>x\<bar> then d else d - 1)"

text \<open>
  The binary64 number nearest to a rational, a tie going to the even significand (IEEE 754
  round to nearest): \<open>x\<close> is scaled so that its integer part has 53 bits, rounded, and
  scaled back. The exponent is not bounded here: the quotients and the three-decimal
  numbers computed below lie far from the overflow and the underflow of binary64.
\<close>

definition binary64 :: "rat \<Rightarrow> rat" where
  "binary64 x =
     (if x = 0 then 0
      else let u = 2 powi (binexp x - 52) in of_int (round_half_even (x / u)) * u)"

text \<open>
  The builtin \<^verbatim>\<open>round(x, ndigits)\<close> on a float, for the \<^verbatim>\<open>ndigits = 3\<close> of the source:
  CPython rounds the exact value of \<^verbatim>\<open>x\<close> to the decimal with \<^verbatim>\<open>ndigits\<close> digits after the
  point, a tie going to the even digit, and returns the binary64 number nearest to that
  decimal. NaN stays NaN.
\<close>

fun round_builtin :: "pyfloat \<Rightarrow> nat \<Rightarrow> pyfloat" where
  "round_builtin NaN ndigits = NaN"
| "round_builtin (Fin x) ndigits =
     Fin (binary64 (of_int (round_half_even (x * 10 ^ ndigits)) / 10 ^ ndigits))"

text \<open>
  \<^verbatim>\<open>Series.round(decimals)\<close> on one value, which is numpy's \<^verbatim>\<open>round\<close>: the value is
  multiplied by \<^verbatim>\<open>10 ** decimals\<close> in binary64, rounded to the nearest integer with ties to
  even, and divided by \<^verbatim>\<open>10 ** decimals\<close> in binary64. NaN stays NaN.
\<close>

fun round_series :: "pyfloat \<Rightarrow> nat \<Rightarrow> pyfloat" where
  "round_series NaN decimals = NaN"
| "round_series (Fin x) decimals =
     Fin (binary64 (of_int (round_half_even (binary64 (x * 10 ^ decimals))) / 10 ^ decimals))"

section \<open>The support rate\<close>

text \<open>
  \<^verbatim>\<open>Series.mean()\<close> on an integer column: the sum of the column divided by its length in
  binary64, NaN on a column with no cell. The sum and the length are themselves exact in
  binary64 as long as they stay below \<open>2 ^ 53\<close>.
\<close>

definition mean :: "int list \<Rightarrow> pyfloat" where
  "mean xs =
     (if xs = [] then NaN else Fin (binary64 (of_int (sum_list xs) / of_nat (length xs))))"

text \<open>\<^verbatim>\<open>calculate_support_rate\<close>, lines 43 to 50.\<close>

definition calculate_support_rate :: "dataframe \<Rightarrow> pyfloat" where
  "calculate_support_rate sub_df =
     (if sub_df = [] then Fin 0 else mean (map policy_support sub_df))"

section \<open>GET /support\<close>

text \<open>\<^verbatim>\<open>overall_support\<close>, lines 53 to 57.\<close>

definition overall_support :: "dataframe \<Rightarrow> aggregate_result" where
  "overall_support df =
     (let rate = calculate_support_rate df in
      \<lparr>count = length df, support_rate = round_builtin rate 3\<rparr>)"

section \<open>GET /support\_by\<close>

text \<open>
  The five optional query parameters of \<^verbatim>\<open>support_by\<close>; \<open>None\<close> is a parameter that the
  request does not carry.
\<close>

record filter_spec =
  q_gender :: "string option"
  q_race :: "string option"
  q_age_group :: "string option"
  q_education :: "string option"
  q_income :: "string option"

text \<open>
  One cell of \<^verbatim>\<open>sub_df[col].str.casefold() == value.casefold()\<close>: a missing cell stays
  missing under \<^verbatim>\<open>.str.casefold()\<close> and compares unequal to every string.
\<close>

definition casefold_eq :: "string option \<Rightarrow> string \<Rightarrow> bool" where
  "casefold_eq cell v = (case cell of None \<Rightarrow> False | Some a \<Rightarrow> casefold a = casefold v)"

text \<open>
  One step \<^verbatim>\<open>if value: sub_df = sub_df[sub_df[col].str.casefold() == value.casefold()]\<close>.
  \<^verbatim>\<open>None\<close> and the empty string are false in Python, and the step is skipped for them.
\<close>

definition filter_step :: "(respondent \<Rightarrow> string option) \<Rightarrow> string option \<Rightarrow> dataframe \<Rightarrow> dataframe" where
  "filter_step col param sub_df =
     (case param of
        None \<Rightarrow> sub_df
      | Some v \<Rightarrow> if v = [] then sub_df else filter (\<lambda>r. casefold_eq (col r) v) sub_df)"

text \<open>
  Lines 73 to 84 of \<^verbatim>\<open>support_by\<close>, the specification's \<^verbatim>\<open>apply(dataset, filterSpec)\<close>: the
  five steps in the order of the source.
\<close>

definition apply_filters :: "dataframe \<Rightarrow> filter_spec \<Rightarrow> dataframe" where
  "apply_filters df q =
     (let sub_df = df;
          sub_df = filter_step gender (q_gender q) sub_df;
          sub_df = filter_step race (q_race q) sub_df;
          sub_df = filter_step age_group (q_age_group q) sub_df;
          sub_df = filter_step education (q_education q) sub_df;
          sub_df = filter_step income (q_income q) sub_df
      in sub_df)"

text \<open>
  \<^verbatim>\<open>sub_df[col].str\<close> needs a column of strings. A column with rows all of whose cells are
  missing is a float column of NaN, and \<^verbatim>\<open>.str\<close> raises \<^verbatim>\<open>AttributeError\<close> on it, whatever
  rows are left when the step is reached; a column with some string, and a column of a
  table without rows, is a column of strings.
\<close>

definition str_dtype :: "(respondent \<Rightarrow> string option) \<Rightarrow> dataframe \<Rightarrow> bool" where
  "str_dtype col df = (df = [] \<or> list_ex (\<lambda>r. col r \<noteq> None) df)"

text \<open>A step is taken when its parameter is neither \<^verbatim>\<open>None\<close> nor the empty string.\<close>

definition truthy :: "string option \<Rightarrow> bool" where
  "truthy param = (case param of None \<Rightarrow> False | Some v \<Rightarrow> v \<noteq> [])"

text \<open>Some step that is taken reads \<^verbatim>\<open>.str\<close> on a column that is not a column of strings.\<close>

definition str_accessor_error :: "dataframe \<Rightarrow> filter_spec \<Rightarrow> bool" where
  "str_accessor_error df q =
     ((truthy (q_gender q) \<and> \<not> str_dtype gender df)
      \<or> (truthy (q_race q) \<and> \<not> str_dtype race df)
      \<or> (truthy (q_age_group q) \<and> \<not> str_dtype age_group df)
      \<or> (truthy (q_education q) \<and> \<not> str_dtype education df)
      \<or> (truthy (q_income q) \<and> \<not> str_dtype income df))"

text \<open>
  \<^verbatim>\<open>support_by\<close>, lines 60 to 89. The exception of \<^verbatim>\<open>.str\<close> leaves the function from
  within the filter steps; otherwise the steps give \<open>apply_filters\<close>.
\<close>

definition support_by :: "dataframe \<Rightarrow> filter_spec \<Rightarrow> error + aggregate_result" where
  "support_by df q =
     (if str_accessor_error df q then
        Inl (AttributeError ''Can only use .str accessor with string values!'')
      else
        let sub_df = apply_filters df q in
        if sub_df = [] then Inl (HTTPException 404 ''No respondents match the given filters.'')
        else
          let rate = calculate_support_rate sub_df in
          Inr \<lparr>count = length sub_df, support_rate = round_builtin rate 3\<rparr>)"

section \<open>GET /grouped\<close>

text \<open>One value of a response dictionary.\<close>

datatype json = JStr string | JInt int | JFloat pyfloat

definition valid_columns :: "string set" where
  "valid_columns = {''gender'', ''race'', ''age_group'', ''education'', ''income''}"

text \<open>
  \<^verbatim>\<open>df[name]\<close> for the categorical columns. \<^verbatim>\<open>support_grouped\<close> asks for a column only
  after it has checked the name against \<^verbatim>\<open>valid_columns\<close>.
\<close>

definition column :: "string \<Rightarrow> (respondent \<Rightarrow> string option) option" where
  "column name =
     (if name = ''gender'' then Some gender
      else if name = ''race'' then Some race
      else if name = ''age_group'' then Some age_group
      else if name = ''education'' then Some education
      else if name = ''income'' then Some income
      else None)"

text \<open>A string between single quotes, and \<^verbatim>\<open>str\<close> of a list of such strings.\<close>

definition quoted :: "string \<Rightarrow> string" where
  "quoted s = [CHR 0x27] @ s @ [CHR 0x27]"

fun join :: "string \<Rightarrow> string list \<Rightarrow> string" where
  "join sep [] = []"
| "join sep [x] = x"
| "join sep (x # y # ys) = x @ sep @ join sep (y # ys)"

definition list_str :: "string list \<Rightarrow> string" where
  "list_str xs = ''['' @ join '', '' (map quoted xs) @ '']''"

text \<open>
  \<^verbatim>\<open>df.groupby(col)\<close> with the defaults \<^verbatim>\<open>sort=True\<close> and \<^verbatim>\<open>dropna=True\<close>: one group for
  each distinct value of the column that is not missing, the group keys in ascending order
  of Python's string comparison (by code point, a proper prefix first), and in each group
  the rows with that value, in the order of the table.
\<close>

definition groupby :: "(respondent \<Rightarrow> string option) \<Rightarrow> dataframe \<Rightarrow> (string \<times> dataframe) list" where
  "groupby col df =
     map (\<lambda>k. (k, filter (\<lambda>r. col r = Some k) df)) (sort (remdups (List.map_filter col df)))"

text \<open>
  \<^verbatim>\<open>["policy_support"].agg(["count", "mean"])\<close>: for each group the number of cells of
  \<^verbatim>\<open>policy_support\<close> that are not missing, and their mean.
\<close>

definition agg_count_mean :: "(string \<times> dataframe) list \<Rightarrow> (string \<times> nat \<times> pyfloat) list" where
  "agg_count_mean groups =
     map (\<lambda>(k, g). (k, length g, mean (map policy_support g))) groups"

text \<open>
  \<^verbatim>\<open>reset_index()\<close> turns the group key into a column named after the grouping column,
  \<^verbatim>\<open>rename\<close> calls the mean \<^verbatim>\<open>support_rate\<close>, the rate is rounded, and
  \<^verbatim>\<open>to_dict(orient="records")\<close> gives one dictionary for each row.
\<close>

definition to_record :: "string \<Rightarrow> string \<times> nat \<times> pyfloat \<Rightarrow> (string \<times> json) list" where
  "to_record group_by row =
     (case row of (k, n, m) \<Rightarrow>
        [(group_by, JStr k), (''count'', JInt (int n)), (''support_rate'', JFloat (round_series m 3))])"

text \<open>\<^verbatim>\<open>support_grouped\<close>, lines 92 to 115.\<close>

definition support_grouped :: "dataframe \<Rightarrow> string \<Rightarrow> error + (string \<times> json) list list" where
  "support_grouped df group_by =
     (if group_by \<notin> valid_columns then
        Inl (HTTPException 400
               (''Invalid group_by '' @ quoted group_by @ ''. Must be one of ''
                  @ list_str (sorted_list_of_set valid_columns) @ ''.''))
      else
        case column group_by of
          None \<Rightarrow> Inl (KeyError group_by)
        | Some col \<Rightarrow> Inr (map (to_record group_by) (agg_count_mean (groupby col df))))"

section \<open>Notions used in the statements\<close>

text \<open>
  A row passes a filter parameter when the parameter is absent or empty, or when the cell
  of the column equals the parameter under \<^verbatim>\<open>casefold\<close>; it matches a request when it
  passes all five parameters.
\<close>

definition passes :: "(respondent \<Rightarrow> string option) \<Rightarrow> string option \<Rightarrow> respondent \<Rightarrow> bool" where
  "passes col param r =
     (case param of None \<Rightarrow> True | Some v \<Rightarrow> v = [] \<or> casefold_eq (col r) v)"

definition matches :: "filter_spec \<Rightarrow> respondent \<Rightarrow> bool" where
  "matches q r =
     (passes gender (q_gender q) r \<and> passes race (q_race q) r
      \<and> passes age_group (q_age_group q) r \<and> passes education (q_education q) r
      \<and> passes income (q_income q) r)"

text \<open>
  The comparison in the specification's words: equality after lowercasing both sides.
\<close>

definition lower_eq :: "string option \<Rightarrow> string \<Rightarrow> bool" where
  "lower_eq cell v = (case cell of None \<Rightarrow> False | Some a \<Rightarrow> lower a = lower v)"

text \<open>The request without parameters.\<close>

definition no_filters :: filter_spec where
  "no_filters =
     \<lparr>q_gender = None, q_race = None, q_age_group = None, q_education = None, q_income = None\<rparr>"

text \<open>Every value of \<^verbatim>\<open>policy_support\<close> is 0 or 1.\<close>

definition indicators_01 :: "dataframe \<Rightarrow> bool" where
  "indicators_01 df = list_all (\<lambda>r. policy_support r = 0 \<or> policy_support r = 1) df"

text \<open>
  The arithmetic mean of \<^verbatim>\<open>policy_support\<close> over a table, read as 0 on the table without
  rows.
\<close>

definition indicator_mean :: "dataframe \<Rightarrow> rat" where
  "indicator_mean df =
     (if df = [] then 0 else of_int (sum_list (map policy_support df)) / of_nat (length df))"

text \<open>No categorical cell is missing.\<close>

definition complete :: "dataframe \<Rightarrow> bool" where
  "complete df =
     list_all (\<lambda>r. gender r \<noteq> None \<and> race r \<noteq> None \<and> age_group r \<noteq> None
                  \<and> education r \<noteq> None \<and> income r \<noteq> None) df"

text \<open>The keys of \<^verbatim>\<open>groupby\<close>.\<close>

definition group_keys :: "(respondent \<Rightarrow> string option) \<Rightarrow> dataframe \<Rightarrow> string list" where
  "group_keys col df = sort (remdups (List.map_filter col df))"

text \<open>
  The table of the specification's example: four respondents, \<^verbatim>\<open>gender\<close> F, F, M, M and
  \<^verbatim>\<open>policy_support\<close> 1, 0, 1, 1.
\<close>

definition sample_row :: "string \<Rightarrow> int \<Rightarrow> respondent" where
  "sample_row g p =
     \<lparr>gender = Some g, race = Some ''Asian'', age_group = Some ''18-29'',
      education = Some ''College'', income = Some ''Middle'', policy_support = p\<rparr>"

definition sample_df :: dataframe where
  "sample_df = [sample_row ''F'' 1, sample_row ''F'' 0, sample_row ''M'' 1, sample_row ''M'' 1]"

text \<open>
  A table whose rows differ in every categorical column, and two tables of eighty rows
  with one and with three supporters, whose means 1/80 and 3/80 lie halfway between two
  three-decimal numbers.
\<close>

definition mixed_df :: dataframe where
  "mixed_df =
     [\<lparr>gender = Some ''M'', race = Some ''White'', age_group = Some ''30-44'',
       education = Some ''College'', income = Some ''High'', policy_support = 1\<rparr>,
      \<lparr>gender = Some ''F'', race = Some ''Black'', age_group = Some ''18-29'',
       education = Some ''High school'', income = Some ''Low'', policy_support = 0\<rparr>,
      \<lparr>gender = Some ''F'', race = Some ''Asian'', age_group = Some ''45-64'',
       education = Some ''College'', income = Some ''Middle'', policy_support = 1\<rparr>,
      \<lparr>gender = Some ''M'', race = Some ''Black'', age_group = Some ''18-29'',
       education = Some ''Graduate'', income = Some ''Low'', policy_support = 1\<rparr>,
      \<lparr>gender = Some ''F'', race = Some ''Asian'', age_group = Some ''65+'',
       education = Some ''Graduate'', income = Some ''High'', policy_support = 0\<rparr>]"

definition eighty_df :: "nat \<Rightarrow> dataframe" where
  "eighty_df supporters =
     replicate supporters (sample_row ''F'' 1) @ replicate (80 - supporters) (sample_row ''F'' 0)"


text \<open>A table with one respondent, who does not support the policy.\<close>

definition opposed_df :: dataframe where
  "opposed_df = [sample_row ''F'' 0]"

text \<open>A respondent whose \<^verbatim>\<open>gender\<close> cell is the one letter sharp s, U+00DF.\<close>

definition eszett_row :: respondent where
  "eszett_row = sample_row [CHR 0xDF] 1"

section \<open>Filtering: auxiliary facts\<close>

lemma filter_step_eq: "filter_step col param df = filter (passes col param) df"
  by (cases param) (auto simp: filter_step_def passes_def intro: filter_cong)

lemma apply_filters_eq: "apply_filters df q = filter (matches q) df"
  by (auto simp: apply_filters_def filter_step_eq matches_def intro!: filter_cong)

lemma casefold_char_lower: "casefold_char (lower_char c) = casefold_char c"
proof -
  have lt: "(of_char c :: nat) < 256" by simp
  show ?thesis
  proof (cases "(65 \<le> (of_char c :: nat) \<and> (of_char c :: nat) \<le> 90)
      \<or> (192 \<le> (of_char c :: nat) \<and> (of_char c :: nat) \<le> 222 \<and> (of_char c :: nat) \<noteq> 215)")
    case True
    then have "lower_char c = char_of ((of_char c :: nat) + 32)"
      by (simp add: lower_char_def Let_def)
    moreover from True lt have "(of_char (char_of ((of_char c :: nat) + 32) :: char) :: nat) = of_char c + 32"
      by (auto simp: of_char_of)
    ultimately show ?thesis using True
      by (auto simp: casefold_char_def Let_def)
  next
    case False
    then show ?thesis by (auto simp: lower_char_def Let_def)
  qed
qed

lemma casefold_lower: "casefold (lower s) = casefold s"
  by (simp add: casefold_def lower_def comp_def casefold_char_lower)

lemma lower_eq_casefold_eq: "lower v = lower w \<Longrightarrow> casefold v = casefold w"
  by (metis casefold_lower)

lemma lower_nil: "lower v = [] \<longleftrightarrow> v = []"
  by (simp add: lower_def)

lemma lower_eq_passes: "lower v = lower w \<Longrightarrow> passes col (Some v) = passes col (Some w)"
proof -
  assume h: "lower v = lower w"
  then have "v = [] \<longleftrightarrow> w = []" by (metis lower_nil)
  moreover from h have "casefold v = casefold w" by (rule lower_eq_casefold_eq)
  ultimately show ?thesis
    by (auto simp: passes_def casefold_eq_def fun_eq_iff split: option.splits)
qed

lemma passes_unconstrained: "passes col None r" "passes col (Some []) r"
  by (simp_all add: passes_def)

lemma apply_filters_comm:
  "apply_filters (apply_filters df q1) q2 = apply_filters (apply_filters df q2) q1"
  by (simp add: apply_filters_eq conj_commute)

lemma lower_eq_matches:
  assumes "lower v = lower w"
  shows "matches (q\<lparr>q_gender := Some v\<rparr>) = matches (q\<lparr>q_gender := Some w\<rparr>)"
    and "matches (q\<lparr>q_race := Some v\<rparr>) = matches (q\<lparr>q_race := Some w\<rparr>)"
    and "matches (q\<lparr>q_age_group := Some v\<rparr>) = matches (q\<lparr>q_age_group := Some w\<rparr>)"
    and "matches (q\<lparr>q_education := Some v\<rparr>) = matches (q\<lparr>q_education := Some w\<rparr>)"
    and "matches (q\<lparr>q_income := Some v\<rparr>) = matches (q\<lparr>q_income := Some w\<rparr>)"
proof -
  have P: "passes col (Some v) x = passes col (Some w) x" for col x
    by (simp only: lower_eq_passes [OF assms])
  show "matches (q\<lparr>q_gender := Some v\<rparr>) = matches (q\<lparr>q_gender := Some w\<rparr>)"
    and "matches (q\<lparr>q_race := Some v\<rparr>) = matches (q\<lparr>q_race := Some w\<rparr>)"
    and "matches (q\<lparr>q_age_group := Some v\<rparr>) = matches (q\<lparr>q_age_group := Some w\<rparr>)"
    and "matches (q\<lparr>q_education := Some v\<rparr>) = matches (q\<lparr>q_education := Some w\<rparr>)"
    and "matches (q\<lparr>q_income := Some v\<rparr>) = matches (q\<lparr>q_income := Some w\<rparr>)"
    by (simp_all add: matches_def fun_eq_iff P)
qed

section \<open>Rounding and the mean: auxiliary facts\<close>

lemma round_half_even_cases:
  "round_half_even x = \<lfloor>x\<rfloor> \<and> x - of_int \<lfloor>x\<rfloor> \<le> 1 / 2
   \<or> round_half_even x = \<lfloor>x\<rfloor> + 1 \<and> 1 / 2 \<le> x - of_int \<lfloor>x\<rfloor>"
  by (auto simp: round_half_even_def Let_def)

lemma round_half_even_near: "\<bar>of_int (round_half_even x) - x\<bar> \<le> 1 / 2"
proof -
  have "of_int \<lfloor>x\<rfloor> \<le> x" and "x < of_int \<lfloor>x\<rfloor> + 1" by linarith+
  with round_half_even_cases [of x] show ?thesis by auto
qed

lemma round_half_even_ge: "of_int a \<le> x \<Longrightarrow> a \<le> round_half_even x"
proof -
  assume "of_int a \<le> x"
  then have "a \<le> \<lfloor>x\<rfloor>" by (simp add: le_floor_iff)
  with round_half_even_cases [of x] show ?thesis by auto
qed

lemma round_half_even_le: "x \<le> of_int b \<Longrightarrow> round_half_even x \<le> b"
proof -
  assume h: "x \<le> of_int b"
  have fl: "\<lfloor>x\<rfloor> \<le> b" using h by (simp add: floor_le_iff)
  show ?thesis
  proof (cases "round_half_even x = \<lfloor>x\<rfloor>")
    case True
    with fl show ?thesis by simp
  next
    case False
    with round_half_even_cases [of x]
    have up: "round_half_even x = \<lfloor>x\<rfloor> + 1" and "1 / 2 \<le> x - of_int \<lfloor>x\<rfloor>" by auto
    then have "of_int \<lfloor>x\<rfloor> < x" by linarith
    with h have "(of_int \<lfloor>x\<rfloor> :: rat) < of_int b" by linarith
    then have "\<lfloor>x\<rfloor> < b" by simp
    with up show ?thesis by simp
  qed
qed

lemma round_half_even_tie:
  assumes "\<bar>of_int (round_half_even x) - x\<bar> = 1 / 2"
  shows "even (round_half_even x)"
proof -
  have fl: "of_int \<lfloor>x\<rfloor> \<le> x" "x < of_int \<lfloor>x\<rfloor> + 1" by linarith+
  let ?d = "x - of_int \<lfloor>x\<rfloor>"
  have d: "?d = 1 / 2"
  proof (rule ccontr)
    assume ne: "?d \<noteq> 1 / 2"
    show False
    proof (cases "?d < 1 / 2")
      case True
      then have "round_half_even x = \<lfloor>x\<rfloor>" by (simp add: round_half_even_def Let_def)
      with assms fl True show False by simp
    next
      case False
      with ne have gt: "1 / 2 < ?d" by simp
      then have "round_half_even x = \<lfloor>x\<rfloor> + 1" by (simp add: round_half_even_def Let_def)
      with assms fl gt show False by simp
    qed
  qed
  then show ?thesis by (simp add: round_half_even_def Let_def)
qed

lemma bitlen_bounds_rat:
  assumes "0 < a"
  shows "(2::rat) powi (bitlen a - 1) \<le> of_int a" and "(of_int a :: rat) < 2 powi bitlen a"
proof -
  from assms have l: "1 \<le> bitlen a" by (auto simp: bitlen_alt_def)
  from bitlen_bounds [OF assms]
  have lo: "2 ^ nat (bitlen a - 1) \<le> a" and hi: "a < 2 ^ nat (bitlen a)" by auto
  from lo have "(of_int (2 ^ nat (bitlen a - 1)) :: rat) \<le> of_int a" by (simp only: of_int_le_iff)
  then show "(2::rat) powi (bitlen a - 1) \<le> of_int a" using l by (simp add: power_int_def)
  from hi have "(of_int a :: rat) < of_int (2 ^ nat (bitlen a))" by (simp only: of_int_less_iff)
  then show "(of_int a :: rat) < 2 powi bitlen a" using l by (simp add: power_int_def)
qed

lemma binexp_bounds:
  assumes "x \<noteq> 0"
  shows "2 powi binexp x \<le> \<bar>x\<bar>" and "\<bar>x\<bar> < 2 powi (binexp x + 1)"
proof -
  obtain a b where q: "quotient_of \<bar>x\<bar> = (a, b)" by (cases "quotient_of \<bar>x\<bar>")
  then have b: "0 < b" and x: "\<bar>x\<bar> = of_int a / of_int b"
    by (simp_all add: quotient_of_denom_pos quotient_of_div)
  from assms have "0 < \<bar>x\<bar>" by simp
  with x b have a: "0 < a" by (simp add: zero_less_divide_iff)
  let ?d = "bitlen a - bitlen b"
  have bpos: "(0::rat) < of_int b" using b by simp
  have lo: "(2::rat) powi (?d - 1) \<le> \<bar>x\<bar>"
  proof -
    have "(2::rat) powi (?d - 1) * of_int b \<le> 2 powi (?d - 1) * 2 powi bitlen b"
      using bitlen_bounds_rat(2) [OF b] by (simp add: less_imp_le)
    also have "\<dots> = 2 powi (bitlen a - 1)" by (simp flip: power_int_add)
    also have "\<dots> \<le> of_int a" by (rule bitlen_bounds_rat(1) [OF a])
    finally show ?thesis using bpos by (simp add: x pos_le_divide_eq)
  qed
  have hi: "\<bar>x\<bar> < (2::rat) powi (?d + 1)"
  proof -
    have "(of_int a :: rat) < 2 powi bitlen a" by (rule bitlen_bounds_rat(2) [OF a])
    also have "\<dots> = 2 powi (?d + 1) * 2 powi (bitlen b - 1)" by (simp flip: power_int_add)
    also have "\<dots> \<le> 2 powi (?d + 1) * of_int b"
      using bitlen_bounds_rat(1) [OF b] by simp
    finally show ?thesis using bpos by (simp add: x pos_divide_less_eq)
  qed
  have e: "binexp x = (if 2 powi ?d \<le> \<bar>x\<bar> then ?d else ?d - 1)"
    by (simp add: binexp_def q Let_def)
  show "2 powi binexp x \<le> \<bar>x\<bar>" using e lo by auto
  show "\<bar>x\<bar> < 2 powi (binexp x + 1)" using e hi by (auto simp: not_le)
qed

lemma binary64_error: "\<bar>binary64 x - x\<bar> \<le> \<bar>x\<bar> / 2 ^ 53"
proof (cases "x = 0")
  case True
  then show ?thesis by (simp add: binary64_def)
next
  case False
  let ?u = "(2::rat) powi (binexp x - 52)"
  let ?k = "round_half_even (x / ?u)"
  have u: "0 < ?u" by simp
  have fl: "binary64 x = of_int ?k * ?u" using False by (simp add: binary64_def Let_def)
  have "\<bar>of_int ?k - x / ?u\<bar> \<le> 1 / 2" by (rule round_half_even_near)
  then have "\<bar>of_int ?k - x / ?u\<bar> * ?u \<le> 1 / 2 * ?u" using u by (simp only: mult_le_cancel_right_pos)
  moreover have "\<bar>of_int ?k - x / ?u\<bar> * ?u = \<bar>of_int ?k * ?u - x\<bar>"
  proof -
    have "\<bar>of_int ?k - x / ?u\<bar> * ?u = \<bar>(of_int ?k - x / ?u) * ?u\<bar>"
      using u by (simp add: abs_mult)
    also have "(of_int ?k - x / ?u) * ?u = of_int ?k * ?u - x" using u by (simp add: field_simps)
    finally show ?thesis .
  qed
  ultimately have near: "\<bar>binary64 x - x\<bar> \<le> ?u / 2" by (simp add: fl)
  have "?u = 2 powi binexp x / 2 powi 52" by (rule power_int_diff) simp
  also have "(2::rat) powi 52 = 2 ^ 52" by (simp add: power_int_def)
  finally have "?u / 2 = 2 powi binexp x / 2 ^ 53" by simp
  also have "\<dots> \<le> \<bar>x\<bar> / 2 ^ 53" using binexp_bounds(1) [OF False] by (simp add: divide_right_mono)
  finally show ?thesis using near by linarith
qed

lemma binary64_nonneg: "0 \<le> x \<Longrightarrow> 0 \<le> binary64 x"
proof (cases "x = 0")
  case True
  then show ?thesis by (simp add: binary64_def)
next
  case False
  assume "0 \<le> x"
  let ?u = "(2::rat) powi (binexp x - 52)"
  have u: "0 < ?u" by simp
  from \<open>0 \<le> x\<close> u have "of_int 0 \<le> x / ?u" by simp
  then have "0 \<le> round_half_even (x / ?u)" by (rule round_half_even_ge)
  then show ?thesis using False u by (simp add: binary64_def Let_def)
qed

lemma binary64_le_one: "x \<le> 1 \<Longrightarrow> binary64 x \<le> 1"
proof (cases "x \<le> 0")
  case True
  show ?thesis
  proof (cases "x = 0")
    case True
    then show ?thesis by (simp add: binary64_def)
  next
    case False
    let ?u = "(2::rat) powi (binexp x - 52)"
    have u: "0 < ?u" by simp
    from True u have "x / ?u \<le> of_int 0" by (simp add: divide_le_0_iff)
    then have "round_half_even (x / ?u) \<le> 0" by (rule round_half_even_le)
    then have "of_int (round_half_even (x / ?u)) * ?u \<le> 0"
      using u by (simp add: mult_le_0_iff)
    then show ?thesis using False by (simp add: binary64_def Let_def)
  qed
next
  case False
  assume le: "x \<le> 1"
  from False have pos: "0 < x" and ne: "x \<noteq> 0" by simp_all
  let ?e = "binexp x"
  let ?u = "(2::rat) powi (?e - 52)"
  have u: "0 < ?u" by simp
  have "(2::rat) powi ?e \<le> 1" using binexp_bounds(1) [OF ne] pos le by simp
  then have e: "?e \<le> 0"
    by (metis not_le one_less_power_int one_less_numeral_iff semiring_norm(76) not_less)
  then have inv: "1 / ?u = of_int (2 ^ nat (52 - ?e))"
    by (simp add: power_int_def field_simps)
  have "x / ?u \<le> 1 / ?u" using le u by (simp add: divide_right_mono)
  then have "x / ?u \<le> of_int (2 ^ nat (52 - ?e))" by (simp only: inv)
  then have "round_half_even (x / ?u) \<le> 2 ^ nat (52 - ?e)" by (rule round_half_even_le)
  then have "(of_int (round_half_even (x / ?u)) :: rat) \<le> of_int (2 ^ nat (52 - ?e))"
    by (simp only: of_int_le_iff)
  then have "(of_int (round_half_even (x / ?u)) :: rat) \<le> 1 / ?u" by (simp only: inv)
  then have "of_int (round_half_even (x / ?u)) * ?u \<le> 1" using u by (simp add: pos_le_divide_eq)
  then show ?thesis using ne by (simp add: binary64_def Let_def)
qed

lemma round3_of_mean_near:
  fixes s :: int and n :: nat
  assumes s: "0 \<le> s" "s \<le> int n" and n: "0 < n" "n < 2 ^ 42"
  defines "m \<equiv> (of_int s :: rat) / of_nat n"
  defines "k \<equiv> round_half_even (binary64 m * 1000)"
  shows "\<bar>of_int k / 1000 - m\<bar> \<le> 1 / 2000"
proof -
  have npos: "(0::rat) < of_nat n" using n by simp
  have m01: "0 \<le> m" "m \<le> 1"
  proof -
    show "0 \<le> m" using s npos by (simp add: m_def)
    have "(of_int s :: rat) \<le> of_int (int n)" using s(2) by (simp only: of_int_le_iff)
    then show "m \<le> 1" using npos by (simp add: m_def divide_le_eq)
  qed
  have e1: "\<bar>binary64 m - m\<bar> \<le> 1 / 2 ^ 53"
  proof -
    have "\<bar>binary64 m - m\<bar> \<le> \<bar>m\<bar> / 2 ^ 53" by (rule binary64_error)
    also have "\<dots> \<le> 1 / 2 ^ 53" using m01 by (simp add: divide_right_mono)
    finally show ?thesis .
  qed
  have e2: "\<bar>of_int k - binary64 m * 1000\<bar> \<le> 1 / 2"
    unfolding k_def by (rule round_half_even_near)
  have e3: "\<bar>of_int k - m * 1000\<bar> \<le> 1 / 2 + 1000 / 2 ^ 53"
    using e1 e2 by linarith
  let ?j = "k * int n - 1000 * s"
  have j: "(of_int ?j :: rat) = (of_int k - m * 1000) * of_nat n"
    using npos by (simp add: m_def field_simps)
  have ja: "\<bar>(of_int ?j :: rat)\<bar> = \<bar>of_int k - m * 1000\<bar> * of_nat n"
  proof -
    have "\<bar>(of_int ?j :: rat)\<bar> = \<bar>(of_int k - m * 1000) * of_nat n\<bar>" by (simp only: j)
    also have "\<dots> = \<bar>of_int k - m * 1000\<bar> * \<bar>of_nat n\<bar>" by (rule abs_mult)
    also have "\<bar>(of_nat n :: rat)\<bar> = of_nat n" by simp
    finally show ?thesis .
  qed
  note ja
  also have "\<dots> \<le> (1 / 2 + 1000 / 2 ^ 53) * of_nat n"
    using e3 npos by (simp only: mult_le_cancel_right_pos)
  finally have b: "\<bar>(of_int ?j :: rat)\<bar> \<le> (1 / 2 + 1000 / 2 ^ 53) * of_nat n" .
  have "(of_nat n :: rat) < of_nat (2 ^ 42)" using n(2) by (simp only: of_nat_less_iff)
  then have nb: "(of_nat n :: rat) < 2 ^ 42" by simp
  have "2 * \<bar>(of_int ?j :: rat)\<bar> < of_nat n + 1"
  proof -
    have "2 * \<bar>(of_int ?j :: rat)\<bar> \<le> of_nat n + (2000 / 2 ^ 53) * of_nat n"
      using b by (simp add: algebra_simps)
    also have "(2000 / 2 ^ 53) * (of_nat n :: rat) < (2000 / 2 ^ 53) * 2 ^ 42"
      using nb by (intro mult_strict_left_mono) simp_all
    also have "(2000 / 2 ^ 53) * (2 ^ 42 :: rat) < 1" by simp
    finally show ?thesis by simp
  qed
  then have "(of_int (2 * \<bar>?j\<bar>) :: rat) < of_int (int n + 1)" by simp
  then have "2 * \<bar>?j\<bar> < int n + 1" by (simp only: of_int_less_iff)
  then have "2 * \<bar>?j\<bar> \<le> int n" by simp
  then have "(of_int (2 * \<bar>?j\<bar>) :: rat) \<le> of_int (int n)" by (simp only: of_int_le_iff)
  then have "2 * \<bar>(of_int ?j :: rat)\<bar> \<le> of_nat n" by simp
  then have "2 * (\<bar>of_int k - m * 1000\<bar> * of_nat n) \<le> 1 * of_nat n"
    by (simp only: ja mult_1)
  then have "(2 * \<bar>of_int k - m * 1000\<bar>) * of_nat n \<le> 1 * of_nat n" by (simp only: mult.assoc)
  then have "2 * \<bar>of_int k - m * 1000\<bar> \<le> 1" using npos by (simp only: mult_le_cancel_right_pos)
  then show ?thesis by (simp add: abs_le_iff field_simps)
qed

lemma binary64_zero: "binary64 0 = 0"
  by (simp add: binary64_def)

lemma round_builtin_unit:
  assumes "0 \<le> x" "x \<le> 1"
  shows "\<exists>y. round_builtin (Fin x) 3 = Fin y \<and> 0 \<le> y \<and> y \<le> 1"
proof -
  let ?k = "round_half_even (x * 10 ^ 3)"
  let ?d = "(of_int ?k :: rat) / 10 ^ 3"
  have "of_int 0 \<le> x * 10 ^ 3" using assms by simp
  then have lo: "0 \<le> ?k" by (rule round_half_even_ge)
  have "x * 10 ^ 3 \<le> of_int 1000" using assms by simp
  then have hi: "?k \<le> 1000" by (rule round_half_even_le)
  from lo have d0: "0 \<le> ?d" by simp
  from hi have "(of_int ?k :: rat) \<le> of_int 1000" by (simp only: of_int_le_iff)
  then have d1: "?d \<le> 1" by simp
  have "round_builtin (Fin x) 3 = Fin (binary64 ?d)" by simp
  with binary64_nonneg [OF d0] binary64_le_one [OF d1] show ?thesis by blast
qed

lemma round_builtin_nearest:
  "\<exists>k::int. round_builtin (Fin x) 3 = Fin (binary64 (of_int k / 1000))
     \<and> k = round_half_even (x * 1000)
     \<and> \<bar>of_int k - x * 1000\<bar> \<le> 1 / 2
     \<and> (\<bar>of_int k - x * 1000\<bar> = 1 / 2 \<longrightarrow> even k)"
  using round_half_even_near [of "x * 1000"] round_half_even_tie [of "x * 1000"] by simp

lemma sum_indicators:
  "indicators_01 df \<Longrightarrow> 0 \<le> sum_list (map policy_support df) \<and> sum_list (map policy_support df) \<le> int (length df)"
  by (induction df) (auto simp: indicators_01_def)

lemma sum_supporters:
  "indicators_01 df \<Longrightarrow> sum_list (map policy_support df) = int (length (filter (\<lambda>r. policy_support r = 1) df))"
  by (induction df) (auto simp: indicators_01_def)

lemma rate_eq: "calculate_support_rate df = Fin (binary64 (indicator_mean df))"
  by (simp add: calculate_support_rate_def mean_def indicator_mean_def binary64_zero)

lemma indicator_mean_unit:
  assumes "indicators_01 df"
  shows "0 \<le> indicator_mean df" and "indicator_mean df \<le> 1"
proof -
  let ?s = "sum_list (map policy_support df)"
  from sum_indicators [OF assms] have s: "0 \<le> ?s" "?s \<le> int (length df)" by auto
  show "0 \<le> indicator_mean df" using s(1) by (simp add: indicator_mean_def)
  have "(of_int ?s :: rat) \<le> of_int (int (length df))" using s(2) by (simp only: of_int_le_iff)
  then show "indicator_mean df \<le> 1" by (simp add: indicator_mean_def divide_le_eq)
qed

lemma rate_unit:
  assumes "indicators_01 df"
  shows "\<exists>x. calculate_support_rate df = Fin x \<and> 0 \<le> x \<and> x \<le> 1"
  using binary64_nonneg [OF indicator_mean_unit(1) [OF assms]]
        binary64_le_one [OF indicator_mean_unit(2) [OF assms]]
  by (simp add: rate_eq)

lemma indicators_filter: "indicators_01 df \<Longrightarrow> indicators_01 (filter P df)"
  by (simp add: indicators_01_def list_all_iff)

lemma rounded_mean_near:
  assumes "indicators_01 df" and "length df < 2 ^ 42"
  shows "\<bar>of_int (round_half_even (binary64 (indicator_mean df) * 1000)) / 1000 - indicator_mean df\<bar>
         \<le> 1 / 2000"
proof (cases "df = []")
  case True
  then show ?thesis by (simp add: indicator_mean_def binary64_zero round_half_even_def)
next
  case False
  then have n: "0 < length df" by simp
  from sum_indicators [OF assms(1)]
  have s: "0 \<le> sum_list (map policy_support df)" "sum_list (map policy_support df) \<le> int (length df)"
    by auto
  from round3_of_mean_near [OF s n assms(2)] False show ?thesis
    by (simp add: indicator_mean_def)
qed

section \<open>The string accessor: auxiliary facts\<close>






section \<open>Grouping: auxiliary facts\<close>

lemma set_map_filter: "set (List.map_filter f xs) = {y. \<exists>x\<in>set xs. f x = Some y}"
  by (induction xs) (auto simp: List.map_filter_simps split: option.splits)

lemma group_keys_set: "set (group_keys col df) = {k. \<exists>r\<in>set df. col r = Some k}"
  by (simp add: group_keys_def set_map_filter)

lemma group_keys_distinct: "distinct (group_keys col df)"
  by (simp add: group_keys_def)

lemma group_keys_sorted: "sorted (group_keys col df)"
  by (simp add: group_keys_def)

lemma sum_list_hit:
  "distinct ks \<Longrightarrow> sum_list (map (\<lambda>k. if x = Some k then 1 else 0) ks) = (if x \<in> Some ` set ks then (1::nat) else 0)"
  by (induction ks) auto

lemma group_sizes_sum:
  assumes "distinct ks" and "\<forall>r\<in>set df. \<forall>k. col r = Some k \<longrightarrow> k \<in> set ks"
  shows "sum_list (map (\<lambda>k. length (filter (\<lambda>r. col r = Some k) df)) ks)
         = length (filter (\<lambda>r. col r \<noteq> None) df)"
  using assms(2)
proof (induction df)
  case Nil
  then show ?case by simp
next
  case (Cons r df)
  have split: "(\<lambda>k. length (filter (\<lambda>r. col r = Some k) (r # df)))
        = (\<lambda>k. (if col r = Some k then 1 else 0) + length (filter (\<lambda>r. col r = Some k) df))"
    by (auto simp: fun_eq_iff)
  have hit: "(if col r \<in> Some ` set ks then (1::nat) else 0) = (if col r \<noteq> None then 1 else 0)"
    using Cons.prems by (cases "col r") auto
  from Cons have IH: "sum_list (map (\<lambda>k. length (filter (\<lambda>r. col r = Some k) df)) ks)
         = length (filter (\<lambda>r. col r \<noteq> None) df)" by simp
  show ?case
    by (simp only: split sum_list_addf sum_list_hit [OF assms(1)] hit IH) simp
qed

lemma groupby_eq:
  "groupby col df = map (\<lambda>k. (k, filter (\<lambda>r. col r = Some k) df)) (group_keys col df)"
  by (simp add: groupby_def group_keys_def)

lemma records_eq:
  "map (to_record g) (agg_count_mean (groupby col df))
   = map (\<lambda>k. [(g, JStr k),
                (''count'', JInt (int (length (filter (\<lambda>r. col r = Some k) df)))),
                (''support_rate'', JFloat (round_series (mean (map policy_support (filter (\<lambda>r. col r = Some k) df))) 3))])
       (group_keys col df)"
  by (simp add: groupby_eq agg_count_mean_def to_record_def comp_def)

lemma valid_column: "g \<in> valid_columns \<Longrightarrow> \<exists>col. column g = Some col"
  by (auto simp: valid_columns_def column_def)

lemma valid_not_count: "g \<in> valid_columns \<Longrightarrow> g \<noteq> ''count'' \<and> g \<noteq> ''support_rate'' \<and> g \<noteq> ''group_value''"
  by (auto simp: valid_columns_def)

lemma column_cases:
  "column g = Some col \<Longrightarrow> col = gender \<or> col = race \<or> col = age_group \<or> col = education \<or> col = income"
  by (auto simp: column_def split: if_splits)

lemma complete_col:
  "complete df \<Longrightarrow> column g = Some col \<Longrightarrow> r \<in> set df \<Longrightarrow> col r \<noteq> None"
  by (drule column_cases) (auto simp: complete_def list_all_iff)

lemma record_lookups:
  assumes "g \<noteq> ''count''" and "g \<noteq> ''group_value''"
  shows "map_of [(g, JStr k), (''count'', JInt n), (''support_rate'', JFloat m)] g = Some (JStr k)"
    and "map_of [(g, JStr k), (''count'', JInt n), (''support_rate'', JFloat m)] ''count'' = Some (JInt n)"
    and "map_of [(g, JStr k), (''count'', JInt n), (''support_rate'', JFloat m)] ''group_value'' = None"
  using assms by auto

lemma complete_filter:
  assumes "complete df" and "column g = Some col"
  shows "filter (\<lambda>r. col r \<noteq> None) df = df"
  using complete_col [OF assms] by (simp add: filter_id_conv)

lemma group_keys_set': "set (group_keys col df) = set (List.map_filter col df)"
  by (simp add: group_keys_def)

lemma rounded_rate:
  fixes d :: dataframe
  defines "k \<equiv> round_half_even (binary64 (indicator_mean d) * 1000)"
  shows "round_builtin (calculate_support_rate d) 3 = Fin (binary64 (of_int k / 1000))"
    and "\<bar>of_int k - binary64 (indicator_mean d) * 1000\<bar> \<le> 1 / 2"
    and "\<bar>of_int k - binary64 (indicator_mean d) * 1000\<bar> = 1 / 2 \<longrightarrow> even k"
    and "indicators_01 d \<and> length d < 2 ^ 42 \<longrightarrow>
           \<bar>of_int k / 1000 - indicator_mean d\<bar> \<le> 1 / 2000"
proof -
  show "round_builtin (calculate_support_rate d) 3 = Fin (binary64 (of_int k / 1000))"
    by (simp add: rate_eq k_def)
  show "\<bar>of_int k - binary64 (indicator_mean d) * 1000\<bar> \<le> 1 / 2"
    unfolding k_def by (rule round_half_even_near)
  show "\<bar>of_int k - binary64 (indicator_mean d) * 1000\<bar> = 1 / 2 \<longrightarrow> even k"
    unfolding k_def by (rule impI) (rule round_half_even_tie)
  show "indicators_01 d \<and> length d < 2 ^ 42 \<longrightarrow>
           \<bar>of_int k / 1000 - indicator_mean d\<bar> \<le> 1 / 2000"
    unfolding k_def using rounded_mean_near [of d] by blast
qed

lemma column_names:
  "column ''gender'' = Some gender" "column ''race'' = Some race"
  "column ''age_group'' = Some age_group" "column ''education'' = Some education"
  "column ''income'' = Some income"
  by (simp_all add: column_def)


section \<open>The claims\<close>



text \<open>
  Claim C2. \<^verbatim>\<open>support_grouped\<close> raises the HTTP error 400 exactly when \<^verbatim>\<open>group_by\<close> is
  not one of \<^verbatim>\<open>gender\<close>, \<^verbatim>\<open>race\<close>, \<^verbatim>\<open>age_group\<close>, \<^verbatim>\<open>education\<close>, \<^verbatim>\<open>income\<close>. With such a
  name it raises and returns no list, not even an empty one; with one of the five names it
  returns a list and raises nothing.
\<close>

theorem support_grouped_invalid_column:
  "((\<exists>d. support_grouped df group_by = Inl (HTTPException 400 d)) \<longleftrightarrow> group_by \<notin> valid_columns)
   \<and> ((\<exists>e. support_grouped df group_by = Inl e) \<longleftrightarrow> group_by \<notin> valid_columns)
   \<and> ((\<exists>res. support_grouped df group_by = Inr res) \<longleftrightarrow> group_by \<in> valid_columns)
   \<and> (group_by \<in> valid_columns \<longleftrightarrow>
        group_by = ''gender'' \<or> group_by = ''race'' \<or> group_by = ''age_group''
        \<or> group_by = ''education'' \<or> group_by = ''income'')"
proof (cases "group_by \<in> valid_columns")
  case True
  then obtain col where "column group_by = Some col" using valid_column by blast
  with True show ?thesis by (auto simp: support_grouped_def valid_columns_def)
next
  case False
  then show ?thesis by (auto simp: support_grouped_def valid_columns_def)
qed

theorem support_grouped_invalid_column_witness:
  "''zip_code'' \<notin> valid_columns
   \<and> (\<exists>d. support_grouped sample_df ''zip_code'' = Inl (HTTPException 400 d))
   \<and> ''gender'' \<in> valid_columns
   \<and> (\<exists>res. support_grouped sample_df ''gender'' = Inr res)"
proof -
  have bad: "''zip_code'' \<notin> valid_columns" by (simp add: valid_columns_def)
  have good: "''gender'' \<in> valid_columns" by (simp add: valid_columns_def)
  from support_grouped_invalid_column [of sample_df "''zip_code''"]
       support_grouped_invalid_column [of sample_df "''gender''"] bad good
  show ?thesis by simp
qed

text \<open>
  Claim C3, as amended. On a table whose indicators are all 0 or 1, the \<^verbatim>\<open>support_rate\<close> of
  every result of \<^verbatim>\<open>overall_support\<close> and of \<^verbatim>\<open>support_by\<close> lies between 0.0 and 1.0, and
  it is 0.0 whenever the \<^verbatim>\<open>count\<close> is 0. The converse is not claimed: rows none of which
  supports the policy give the rate 0.0 with a positive count.
\<close>

theorem support_rate_unit_interval:
  assumes "indicators_01 df"
  shows "(\<exists>x. support_rate (overall_support df) = Fin x \<and> 0 \<le> x \<and> x \<le> 1)
   \<and> (count (overall_support df) = 0 \<longrightarrow> support_rate (overall_support df) = Fin 0)
   \<and> (\<forall>res. support_by df q = Inr res \<longrightarrow>
          (\<exists>x. support_rate res = Fin x \<and> 0 \<le> x \<and> x \<le> 1)
          \<and> (count res = 0 \<longrightarrow> support_rate res = Fin 0))"
proof -
  have unit: "\<exists>y. round_builtin (calculate_support_rate d) 3 = Fin y \<and> 0 \<le> y \<and> y \<le> 1"
    if "indicators_01 d" for d
  proof -
    from rate_unit [OF that] obtain x where "calculate_support_rate d = Fin x" "0 \<le> x" "x \<le> 1"
      by blast
    with round_builtin_unit [of x] show ?thesis by simp
  qed
  have a: "\<exists>x. support_rate (overall_support df) = Fin x \<and> 0 \<le> x \<and> x \<le> 1"
    using unit [OF assms] by (simp add: overall_support_def Let_def)
  have b: "count (overall_support df) = 0 \<longrightarrow> support_rate (overall_support df) = Fin 0"
    by (simp add: overall_support_def Let_def calculate_support_rate_def round_half_even_def
          binary64_zero)
  have sub: "indicators_01 (apply_filters df q)"
    unfolding apply_filters_eq using assms by (rule indicators_filter)
  have c: "\<forall>res. support_by df q = Inr res \<longrightarrow>
          (\<exists>x. support_rate res = Fin x \<and> 0 \<le> x \<and> x \<le> 1)
          \<and> (count res = 0 \<longrightarrow> support_rate res = Fin 0)"
    using unit [OF sub] by (auto simp: support_by_def Let_def split: if_splits)
  from a b c show ?thesis by blast
qed

theorem support_rate_unit_interval_witness:
  "indicators_01 sample_df
   \<and> support_rate (overall_support sample_df) = Fin (3 / 4)
   \<and> support_by sample_df (no_filters\<lparr>q_gender := Some ''m''\<rparr>) = Inr \<lparr>count = 2, support_rate = Fin 1\<rparr>
   \<and> indicators_01 [] \<and> count (overall_support []) = 0 \<and> support_rate (overall_support []) = Fin 0"
proof -
  have ind: "indicators_01 sample_df" by code_simp
  have ind0: "indicators_01 []" by code_simp
  have ov: "overall_support sample_df = \<lparr>count = 4, support_rate = Fin (3 / 4)\<rparr>" by code_simp
  have by_m: "support_by sample_df (no_filters\<lparr>q_gender := Some ''m''\<rparr>)
              = Inr \<lparr>count = 2, support_rate = Fin 1\<rparr>" by code_simp
  have c0: "count (overall_support []) = 0" by code_simp
  from support_rate_unit_interval [OF ind, of "no_filters\<lparr>q_gender := Some ''m''\<rparr>"]
       support_rate_unit_interval [OF ind0, of no_filters] ind ind0 ov by_m c0
  show ?thesis by simp
qed

text \<open>
  The claim as first stated, with "exactly when", fails on the table of one respondent who
  does not support the policy.
\<close>

theorem zero_rate_with_positive_count:
  "indicators_01 opposed_df
   \<and> support_rate (overall_support opposed_df) = Fin 0
   \<and> count (overall_support opposed_df) = 1
   \<and> support_by opposed_df no_filters = Inr \<lparr>count = 1, support_rate = Fin 0\<rparr>
   \<and> \<not> (support_rate (overall_support opposed_df) = Fin 0 \<longleftrightarrow> count (overall_support opposed_df) = 0)"
  by code_simp

text \<open>
  Claim C4. Filtering by \<^verbatim>\<open>gender\<close> and \<^verbatim>\<open>race\<close> in one request gives the rows that filtering
  by one of them and then by the other gives, in either order and for every pair of values.
  In general two requests applied one after the other commute and keep the rows that match
  both, and one request keeps the rows that pass each of its five parameters: the fields
  compose by conjunction.
\<close>

theorem filters_compose_by_conjunction:
  "apply_filters df (no_filters\<lparr>q_gender := g, q_race := r\<rparr>)
     = apply_filters (apply_filters df (no_filters\<lparr>q_gender := g\<rparr>)) (no_filters\<lparr>q_race := r\<rparr>)
   \<and> apply_filters df (no_filters\<lparr>q_gender := g, q_race := r\<rparr>)
     = apply_filters (apply_filters df (no_filters\<lparr>q_race := r\<rparr>)) (no_filters\<lparr>q_gender := g\<rparr>)
   \<and> apply_filters (apply_filters df q1) q2 = apply_filters (apply_filters df q2) q1
   \<and> apply_filters (apply_filters df q1) q2 = filter (\<lambda>x. matches q1 x \<and> matches q2 x) df
   \<and> apply_filters df q
     = filter (\<lambda>x. passes gender (q_gender q) x \<and> passes race (q_race q) x
                   \<and> passes age_group (q_age_group q) x \<and> passes education (q_education q) x
                   \<and> passes income (q_income q) x) df"
proof -
  have two: "matches (no_filters\<lparr>q_gender := g, q_race := r\<rparr>) x
        \<longleftrightarrow> matches (no_filters\<lparr>q_gender := g\<rparr>) x \<and> matches (no_filters\<lparr>q_race := r\<rparr>) x" for x
    by (simp add: matches_def no_filters_def passes_unconstrained)
  have a: "apply_filters df (no_filters\<lparr>q_gender := g, q_race := r\<rparr>)
     = apply_filters (apply_filters df (no_filters\<lparr>q_gender := g\<rparr>)) (no_filters\<lparr>q_race := r\<rparr>)"
    by (auto simp: apply_filters_eq two intro: filter_cong)
  have c: "apply_filters (apply_filters df q1) q2 = apply_filters (apply_filters df q2) q1"
    by (rule apply_filters_comm)
  have b: "apply_filters df (no_filters\<lparr>q_gender := g, q_race := r\<rparr>)
     = apply_filters (apply_filters df (no_filters\<lparr>q_race := r\<rparr>)) (no_filters\<lparr>q_gender := g\<rparr>)"
    unfolding a by (rule apply_filters_comm)
  have d: "apply_filters (apply_filters df q1) q2 = filter (\<lambda>x. matches q1 x \<and> matches q2 x) df"
    by (simp add: apply_filters_eq conj_commute)
  have e: "apply_filters df q
     = filter (\<lambda>x. passes gender (q_gender q) x \<and> passes race (q_race q) x
                   \<and> passes age_group (q_age_group q) x \<and> passes education (q_education q) x
                   \<and> passes income (q_income q) x) df"
    by (auto simp: apply_filters_eq matches_def intro: filter_cong)
  from a b c d e show ?thesis by blast
qed

theorem filters_compose_by_conjunction_witness:
  "apply_filters sample_df (no_filters\<lparr>q_gender := Some ''m'', q_race := Some ''ASIAN''\<rparr>)
     = [sample_row ''M'' 1, sample_row ''M'' 1]
   \<and> apply_filters (apply_filters sample_df (no_filters\<lparr>q_gender := Some ''m''\<rparr>))
        (no_filters\<lparr>q_race := Some ''ASIAN''\<rparr>) = [sample_row ''M'' 1, sample_row ''M'' 1]
   \<and> apply_filters (apply_filters sample_df (no_filters\<lparr>q_race := Some ''ASIAN''\<rparr>))
        (no_filters\<lparr>q_gender := Some ''m''\<rparr>) = [sample_row ''M'' 1, sample_row ''M'' 1]"
proof -
  have one: "apply_filters sample_df (no_filters\<lparr>q_gender := Some ''m'', q_race := Some ''ASIAN''\<rparr>)
     = [sample_row ''M'' 1, sample_row ''M'' 1]"
    by code_simp
  from filters_compose_by_conjunction
         [where df = sample_df and g = "Some ''m''" and r = "Some ''ASIAN''"
            and ?q1.0 = no_filters and ?q2.0 = no_filters and q = no_filters]
  have seq: "apply_filters sample_df (no_filters\<lparr>q_gender := Some ''m'', q_race := Some ''ASIAN''\<rparr>)
       = apply_filters (apply_filters sample_df (no_filters\<lparr>q_gender := Some ''m''\<rparr>))
           (no_filters\<lparr>q_race := Some ''ASIAN''\<rparr>)"
    and qes: "apply_filters sample_df (no_filters\<lparr>q_gender := Some ''m'', q_race := Some ''ASIAN''\<rparr>)
       = apply_filters (apply_filters sample_df (no_filters\<lparr>q_race := Some ''ASIAN''\<rparr>))
           (no_filters\<lparr>q_gender := Some ''m''\<rparr>)"
    by blast+
  from one seq [symmetric] qes [symmetric] show ?thesis by (simp only: simp_thms)
qed

text \<open>
  Claim C5, as amended. For a filter value that is not empty, a row is kept exactly when
  its cell is present and equal to the value after \<^verbatim>\<open>casefold\<close> on both sides: the whole
  strings are compared, no substring and no pattern. Two filter values with the same
  lowercasing, such as \<^verbatim>\<open>female\<close> and \<^verbatim>\<open>FEMALE\<close>, keep the same rows, in every column.
\<close>

theorem filter_is_casefold_equality:
  "(v \<noteq> [] \<longrightarrow>
      (x \<in> set (filter_step col (Some v) df)
         \<longleftrightarrow> x \<in> set df \<and> (\<exists>a. col x = Some a \<and> casefold a = casefold v)))
   \<and> (x \<in> set (apply_filters df q) \<longleftrightarrow> x \<in> set df \<and> matches q x)
   \<and> (lower v = lower w \<longrightarrow>
        filter_step col (Some v) df = filter_step col (Some w) df
        \<and> apply_filters df (q\<lparr>q_gender := Some v\<rparr>) = apply_filters df (q\<lparr>q_gender := Some w\<rparr>)
        \<and> apply_filters df (q\<lparr>q_race := Some v\<rparr>) = apply_filters df (q\<lparr>q_race := Some w\<rparr>)
        \<and> apply_filters df (q\<lparr>q_age_group := Some v\<rparr>) = apply_filters df (q\<lparr>q_age_group := Some w\<rparr>)
        \<and> apply_filters df (q\<lparr>q_education := Some v\<rparr>) = apply_filters df (q\<lparr>q_education := Some w\<rparr>)
        \<and> apply_filters df (q\<lparr>q_income := Some v\<rparr>) = apply_filters df (q\<lparr>q_income := Some w\<rparr>))
   \<and> apply_filters df (no_filters\<lparr>q_gender := Some ''female''\<rparr>)
       = apply_filters df (no_filters\<lparr>q_gender := Some ''FEMALE''\<rparr>)"
proof -
  have a: "v \<noteq> [] \<longrightarrow>
      (x \<in> set (filter_step col (Some v) df)
         \<longleftrightarrow> x \<in> set df \<and> (\<exists>a. col x = Some a \<and> casefold a = casefold v))"
    by (auto simp: filter_step_def casefold_eq_def split: option.splits)
  have b: "x \<in> set (apply_filters df q) \<longleftrightarrow> x \<in> set df \<and> matches q x"
    by (simp add: apply_filters_eq)
  have c: "lower v = lower w \<longrightarrow>
        filter_step col (Some v) df = filter_step col (Some w) df
        \<and> apply_filters df (q\<lparr>q_gender := Some v\<rparr>) = apply_filters df (q\<lparr>q_gender := Some w\<rparr>)
        \<and> apply_filters df (q\<lparr>q_race := Some v\<rparr>) = apply_filters df (q\<lparr>q_race := Some w\<rparr>)
        \<and> apply_filters df (q\<lparr>q_age_group := Some v\<rparr>) = apply_filters df (q\<lparr>q_age_group := Some w\<rparr>)
        \<and> apply_filters df (q\<lparr>q_education := Some v\<rparr>) = apply_filters df (q\<lparr>q_education := Some w\<rparr>)
        \<and> apply_filters df (q\<lparr>q_income := Some v\<rparr>) = apply_filters df (q\<lparr>q_income := Some w\<rparr>)"
  proof
    assume h: "lower v = lower w"
    show "filter_step col (Some v) df = filter_step col (Some w) df
        \<and> apply_filters df (q\<lparr>q_gender := Some v\<rparr>) = apply_filters df (q\<lparr>q_gender := Some w\<rparr>)
        \<and> apply_filters df (q\<lparr>q_race := Some v\<rparr>) = apply_filters df (q\<lparr>q_race := Some w\<rparr>)
        \<and> apply_filters df (q\<lparr>q_age_group := Some v\<rparr>) = apply_filters df (q\<lparr>q_age_group := Some w\<rparr>)
        \<and> apply_filters df (q\<lparr>q_education := Some v\<rparr>) = apply_filters df (q\<lparr>q_education := Some w\<rparr>)
        \<and> apply_filters df (q\<lparr>q_income := Some v\<rparr>) = apply_filters df (q\<lparr>q_income := Some w\<rparr>)"
      by (simp only: filter_step_eq apply_filters_eq lower_eq_passes [OF h] lower_eq_matches [OF h] simp_thms)
  qed
  have fem: "lower ''female'' = lower ''FEMALE''" by code_simp
  have d: "apply_filters df (no_filters\<lparr>q_gender := Some ''female''\<rparr>)
       = apply_filters df (no_filters\<lparr>q_gender := Some ''FEMALE''\<rparr>)"
    by (simp only: apply_filters_eq lower_eq_matches(1) [OF fem])
  from a b c d show ?thesis by blast
qed

theorem filter_is_casefold_equality_witness:
  "''f'' \<noteq> [] \<and> lower ''f'' = lower ''F''
   \<and> sample_row ''F'' 1 \<in> set (filter_step gender (Some ''f'') sample_df)
   \<and> sample_row ''M'' 1 \<notin> set (filter_step gender (Some ''f'') sample_df)
   \<and> filter_step gender (Some ''f'') sample_df = filter_step gender (Some ''F'') sample_df
   \<and> apply_filters sample_df (no_filters\<lparr>q_gender := Some ''f''\<rparr>)
       = apply_filters sample_df (no_filters\<lparr>q_gender := Some ''F''\<rparr>)"
proof -
  have ne: "''f'' \<noteq> []" by simp
  have lo: "lower ''f'' = lower ''F''" by code_simp
  have mem: "sample_row ''F'' 1 \<in> set sample_df" by code_simp
  have memM: "sample_row ''M'' 1 \<in> set sample_df" by code_simp
  have cell: "gender (sample_row ''F'' 1) = Some ''F''" by (simp add: sample_row_def)
  have cellM: "gender (sample_row ''M'' 1) = Some ''M''" by (simp add: sample_row_def)
  have cf: "casefold ''F'' = casefold ''f''" by code_simp
  have cfM: "casefold ''M'' \<noteq> casefold ''f''" by code_simp
  note F = filter_is_casefold_equality
         [where v = "''f''" and w = "''F''" and x = "sample_row ''F'' 1" and col = gender
            and df = sample_df and q = no_filters]
  note M = filter_is_casefold_equality
         [where v = "''f''" and w = "''F''" and x = "sample_row ''M'' 1" and col = gender
            and df = sample_df and q = no_filters]
  from F ne mem cell cf
  have inF: "sample_row ''F'' 1 \<in> set (filter_step gender (Some ''f'') sample_df)" by blast
  from M ne cellM cfM
  have outM: "sample_row ''M'' 1 \<notin> set (filter_step gender (Some ''f'') sample_df)" by auto
  from F lo
  have same: "filter_step gender (Some ''f'') sample_df = filter_step gender (Some ''F'') sample_df"
    and same': "apply_filters sample_df (no_filters\<lparr>q_gender := Some ''f''\<rparr>)
       = apply_filters sample_df (no_filters\<lparr>q_gender := Some ''F''\<rparr>)"
    by blast+
  from ne lo inF outM same same' show ?thesis by blast
qed

text \<open>
  With lowercasing in place of \<^verbatim>\<open>casefold\<close>, or with an empty filter value, the claim fails:
  the filter value \<^verbatim>\<open>ss\<close> keeps the row whose cell is the sharp s, and the empty value keeps
  the row whose cell is \<^verbatim>\<open>F\<close>.
\<close>

theorem casefold_is_not_lowercasing:
  "eszett_row \<in> set (apply_filters [eszett_row] (no_filters\<lparr>q_gender := Some ''ss''\<rparr>))
   \<and> gender eszett_row = Some [CHR 0xDF]
   \<and> \<not> lower_eq (gender eszett_row) ''ss''
   \<and> sample_row ''F'' 1 \<in> set (apply_filters [sample_row ''F'' 1] (no_filters\<lparr>q_gender := Some []\<rparr>))
   \<and> gender (sample_row ''F'' 1) = Some ''F''
   \<and> \<not> lower_eq (gender (sample_row ''F'' 1)) []"
  by code_simp

text \<open>
  Claim C6. For every table, \<^verbatim>\<open>overall_support\<close> returns a \<^verbatim>\<open>count\<close> equal to the number of
  rows and a \<^verbatim>\<open>support_rate\<close> equal to the arithmetic mean of \<^verbatim>\<open>policy_support\<close> over all
  rows, computed in binary64 and rounded to three decimals: the float nearest to
  \<open>k / 1000\<close>, where \<open>k\<close> is the integer nearest to a thousand times the binary64 mean, the
  even one at a tie. The binary64 mean differs from the exact mean by at most one part in
  \<open>2 ^ 53\<close>, and on a table of 0/1 indicators with fewer than \<open>2 ^ 42\<close> rows \<open>k / 1000\<close> is at
  most 1/2000 away from the exact mean, whose numerator is then the number of supporters.
  The mean of the table without rows is read as 0.
\<close>

theorem overall_support_count_and_mean:
  "count (overall_support df) = length df
   \<and> (\<exists>k::int. support_rate (overall_support df) = Fin (binary64 (of_int k / 1000))
         \<and> \<bar>of_int k - binary64 (indicator_mean df) * 1000\<bar> \<le> 1 / 2
         \<and> (\<bar>of_int k - binary64 (indicator_mean df) * 1000\<bar> = 1 / 2 \<longrightarrow> even k)
         \<and> (indicators_01 df \<and> length df < 2 ^ 42 \<longrightarrow>
              \<bar>of_int k / 1000 - indicator_mean df\<bar> \<le> 1 / 2000))
   \<and> \<bar>binary64 (indicator_mean df) - indicator_mean df\<bar> \<le> \<bar>indicator_mean df\<bar> / 2 ^ 53
   \<and> (df \<noteq> [] \<longrightarrow>
        indicator_mean df = of_int (sum_list (map policy_support df)) / of_nat (length df))
   \<and> (df = [] \<longrightarrow> support_rate (overall_support df) = Fin 0)
   \<and> (indicators_01 df \<longrightarrow>
        sum_list (map policy_support df) = int (length (filter (\<lambda>r. policy_support r = 1) df)))"
proof -
  have cnt: "count (overall_support df) = length df"
    by (simp add: overall_support_def Let_def)
  have sr: "support_rate (overall_support df) = round_builtin (calculate_support_rate df) 3"
    by (simp add: overall_support_def Let_def)
  have near: "\<exists>k::int. support_rate (overall_support df) = Fin (binary64 (of_int k / 1000))
         \<and> \<bar>of_int k - binary64 (indicator_mean df) * 1000\<bar> \<le> 1 / 2
         \<and> (\<bar>of_int k - binary64 (indicator_mean df) * 1000\<bar> = 1 / 2 \<longrightarrow> even k)
         \<and> (indicators_01 df \<and> length df < 2 ^ 42 \<longrightarrow>
              \<bar>of_int k / 1000 - indicator_mean df\<bar> \<le> 1 / 2000)"
  proof -
    define k where "k = round_half_even (binary64 (indicator_mean df) * 1000)"
    note k = rounded_rate [of df, folded k_def]
    show ?thesis unfolding sr by (intro exI [of _ k] conjI k)
  qed
  have err: "\<bar>binary64 (indicator_mean df) - indicator_mean df\<bar> \<le> \<bar>indicator_mean df\<bar> / 2 ^ 53"
    by (rule binary64_error)
  have expl: "df \<noteq> [] \<longrightarrow>
        indicator_mean df = of_int (sum_list (map policy_support df)) / of_nat (length df)"
    by (simp add: indicator_mean_def)
  have emp: "df = [] \<longrightarrow> support_rate (overall_support df) = Fin 0"
    by (simp add: overall_support_def Let_def calculate_support_rate_def round_half_even_def
          binary64_zero)
  have sup: "indicators_01 df \<longrightarrow>
        sum_list (map policy_support df) = int (length (filter (\<lambda>r. policy_support r = 1) df))"
    by (simp add: sum_supporters)
  show ?thesis by (intro conjI cnt near err expl emp sup)
qed

theorem overall_support_count_and_mean_witness:
  "indicators_01 sample_df \<and> sample_df \<noteq> [] \<and> length sample_df < 2 ^ 42
   \<and> overall_support sample_df = \<lparr>count = 4, support_rate = Fin (3 / 4)\<rparr>
   \<and> indicator_mean sample_df = 3 / 4
   \<and> sum_list (map policy_support sample_df) = 3
   \<and> indicators_01 (eighty_df 1) \<and> indicator_mean (eighty_df 1) = 1 / 80
   \<and> binary64 (1 / 80) = 3602879701896397 / 288230376151711744
   \<and> overall_support (eighty_df 1) = \<lparr>count = 80, support_rate = Fin (binary64 (13 / 1000))\<rparr>
   \<and> overall_support (eighty_df 3) = \<lparr>count = 80, support_rate = Fin (binary64 (37 / 1000))\<rparr>
   \<and> overall_support (sample_df @ opposed_df @ opposed_df)
       = \<lparr>count = 6, support_rate = Fin (binary64 (500 / 1000))\<rparr>
   \<and> overall_support [] = \<lparr>count = 0, support_rate = Fin 0\<rparr>"
proof -
  have ind: "indicators_01 sample_df" by code_simp
  have ne: "sample_df \<noteq> []" by code_simp
  have "length sample_df = 4" by code_simp
  then have len: "length sample_df < 2 ^ 42" by simp
  have m: "indicator_mean sample_df = 3 / 4" by code_simp
  have ov: "overall_support sample_df = \<lparr>count = 4, support_rate = Fin (3 / 4)\<rparr>" by code_simp
  have i1: "indicators_01 (eighty_df 1)" by code_simp
  have m1: "indicator_mean (eighty_df 1) = 1 / 80" by code_simp
  have b1: "binary64 (1 / 80) = 3602879701896397 / 288230376151711744" by code_simp
  have t1: "overall_support (eighty_df 1) = \<lparr>count = 80, support_rate = Fin (binary64 (13 / 1000))\<rparr>"
    by code_simp
  have t3: "overall_support (eighty_df 3) = \<lparr>count = 80, support_rate = Fin (binary64 (37 / 1000))\<rparr>"
    by code_simp
  have half: "overall_support (sample_df @ opposed_df @ opposed_df)
       = \<lparr>count = 6, support_rate = Fin (binary64 (500 / 1000))\<rparr>"
    by code_simp
  have emp: "overall_support [] = \<lparr>count = 0, support_rate = Fin 0\<rparr>" by code_simp
  have sup: "int (length (filter (\<lambda>r. policy_support r = 1) sample_df)) = 3" by code_simp
  from overall_support_count_and_mean [of sample_df]
  have "indicators_01 sample_df \<longrightarrow>
        sum_list (map policy_support sample_df)
          = int (length (filter (\<lambda>r. policy_support r = 1) sample_df))"
    by (elim conjE)
  with ind sup have s: "sum_list (map policy_support sample_df) = 3" by simp
  show ?thesis by (intro conjI ind ne len ov m s i1 m1 b1 t1 t3 half emp)
qed

text \<open>
  Claim C7. \<^verbatim>\<open>calculate_support_rate\<close> is 0.0 on the table without rows, and on every table
  its value is a finite float, never NaN. The function has no failing branch: it is total.
\<close>

theorem calculate_support_rate_total:
  "calculate_support_rate [] = Fin 0
   \<and> calculate_support_rate sub_df \<noteq> NaN
   \<and> (\<exists>x. calculate_support_rate sub_df = Fin x)"
  by (simp add: calculate_support_rate_def mean_def)

text \<open>
  Claim C8. On a table without missing categorical cells and for each of the five
  grouping columns, \<^verbatim>\<open>support_grouped\<close> groups by the column of that name and returns one
  entry for each distinct value of that column, and the \<^verbatim>\<open>count\<close>s of the entries add up to
  the number of rows.
\<close>

theorem grouping_completeness:
  assumes "complete df" and "group_by \<in> valid_columns"
  shows "\<exists>col entries ks ns.
           column group_by = Some col
           \<and> (group_by = ''gender'' \<longrightarrow> col = gender)
           \<and> (group_by = ''race'' \<longrightarrow> col = race)
           \<and> (group_by = ''age_group'' \<longrightarrow> col = age_group)
           \<and> (group_by = ''education'' \<longrightarrow> col = education)
           \<and> (group_by = ''income'' \<longrightarrow> col = income)
           \<and> support_grouped df group_by = Inr entries
           \<and> map (\<lambda>e. map_of e group_by) entries = map (\<lambda>k. Some (JStr k)) ks
           \<and> distinct ks \<and> set ks = set (List.map_filter col df)
           \<and> map (\<lambda>e. map_of e ''count'') entries = map (\<lambda>n. Some (JInt (int n))) ns
           \<and> sum_list ns = length df"
proof -
  from assms(2) obtain col where col: "column group_by = Some col"
    using valid_column by blast
  from assms(2) have ne: "group_by \<noteq> ''count''" "group_by \<noteq> ''group_value''"
    using valid_not_count by blast+
  let ?ks = "group_keys col df"
  let ?size = "\<lambda>k. length (filter (\<lambda>r. col r = Some k) df)"
  let ?entries = "map (to_record group_by) (agg_count_mean (groupby col df))"
  have res: "support_grouped df group_by = Inr ?entries"
    using assms(2) col by (simp add: support_grouped_def)
  have keys: "map (\<lambda>e. map_of e group_by) ?entries = map (\<lambda>k. Some (JStr k)) ?ks"
    unfolding records_eq using ne by (simp add: comp_def)
  have counts: "map (\<lambda>e. map_of e ''count'') ?entries = map (\<lambda>n. Some (JInt (int n))) (map ?size ?ks)"
    unfolding records_eq using ne by (simp add: comp_def)
  have "\<forall>r\<in>set df. \<forall>k. col r = Some k \<longrightarrow> k \<in> set ?ks"
    by (auto simp: group_keys_set)
  with group_keys_distinct have "sum_list (map ?size ?ks) = length (filter (\<lambda>r. col r \<noteq> None) df)"
    by (rule group_sizes_sum)
  then have total: "sum_list (map ?size ?ks) = length df"
    by (simp only: complete_filter [OF assms(1) col])
  have pin: "group_by = ''gender'' \<longrightarrow> col = gender"
    "group_by = ''race'' \<longrightarrow> col = race"
    "group_by = ''age_group'' \<longrightarrow> col = age_group"
    "group_by = ''education'' \<longrightarrow> col = education"
    "group_by = ''income'' \<longrightarrow> col = income"
    using col by (auto simp: column_names)
  show ?thesis
    by (intro exI [of _ col] exI [of _ ?entries] exI [of _ ?ks] exI [of _ "map ?size ?ks"] conjI
          col pin res keys counts total group_keys_distinct group_keys_set')
qed

theorem grouping_completeness_witness:
  "complete mixed_df \<and> ''race'' \<in> valid_columns \<and> length mixed_df = 5
   \<and> support_grouped mixed_df ''race''
       = Inr [[(''race'', JStr ''Asian''), (''count'', JInt 2), (''support_rate'', JFloat (Fin (1 / 2)))],
              [(''race'', JStr ''Black''), (''count'', JInt 2), (''support_rate'', JFloat (Fin (1 / 2)))],
              [(''race'', JStr ''White''), (''count'', JInt 1), (''support_rate'', JFloat (Fin 1))]]
   \<and> support_grouped mixed_df ''gender''
       = Inr [[(''gender'', JStr ''F''), (''count'', JInt 3),
               (''support_rate'', JFloat (Fin (binary64 (333 / 1000))))],
              [(''gender'', JStr ''M''), (''count'', JInt 2), (''support_rate'', JFloat (Fin 1))]]
   \<and> List.map_filter race mixed_df = [''White'', ''Black'', ''Asian'', ''Black'', ''Asian'']
   \<and> (\<exists>col entries ks ns.
           column ''race'' = Some col
           \<and> (''race'' = ''gender'' \<longrightarrow> col = gender)
           \<and> (''race'' = ''race'' \<longrightarrow> col = race)
           \<and> (''race'' = ''age_group'' \<longrightarrow> col = age_group)
           \<and> (''race'' = ''education'' \<longrightarrow> col = education)
           \<and> (''race'' = ''income'' \<longrightarrow> col = income)
           \<and> support_grouped mixed_df ''race'' = Inr entries
           \<and> map (\<lambda>e. map_of e ''race'') entries = map (\<lambda>k. Some (JStr k)) ks
           \<and> distinct ks \<and> set ks = set (List.map_filter col mixed_df)
           \<and> map (\<lambda>e. map_of e ''count'') entries = map (\<lambda>n. Some (JInt (int n))) ns
           \<and> sum_list ns = length mixed_df)"
proof -
  have h1: "complete mixed_df" by code_simp
  have h2: "''race'' \<in> valid_columns" by (simp add: valid_columns_def)
  have len: "length mixed_df = 5" by code_simp
  have ev: "support_grouped mixed_df ''race''
       = Inr [[(''race'', JStr ''Asian''), (''count'', JInt 2), (''support_rate'', JFloat (Fin (1 / 2)))],
              [(''race'', JStr ''Black''), (''count'', JInt 2), (''support_rate'', JFloat (Fin (1 / 2)))],
              [(''race'', JStr ''White''), (''count'', JInt 1), (''support_rate'', JFloat (Fin 1))]]"
    by code_simp
  have evg: "support_grouped mixed_df ''gender''
       = Inr [[(''gender'', JStr ''F''), (''count'', JInt 3),
               (''support_rate'', JFloat (Fin (binary64 (333 / 1000))))],
              [(''gender'', JStr ''M''), (''count'', JInt 2), (''support_rate'', JFloat (Fin 1))]]"
    by code_simp
  have cells: "List.map_filter race mixed_df = [''White'', ''Black'', ''Asian'', ''Black'', ''Asian'']"
    by code_simp
  note inst = grouping_completeness [OF h1 h2]
  show ?thesis by (intro conjI h1 h2 len ev evg cells inst)
qed

text \<open>
  Claim C9. A parameter that is absent or empty leaves the table as it is, so a request
  whose five parameters are all absent or empty keeps every row in place, and
  \<^verbatim>\<open>support_by\<close> without parameters on a table with rows reports their number as \<^verbatim>\<open>count\<close>.
\<close>

theorem empty_filter_is_identity:
  "filter_step col None df = df
   \<and> filter_step col (Some []) df = df
   \<and> apply_filters df no_filters = df
   \<and> ((q_gender q = None \<or> q_gender q = Some []) \<and> (q_race q = None \<or> q_race q = Some [])
        \<and> (q_age_group q = None \<or> q_age_group q = Some [])
        \<and> (q_education q = None \<or> q_education q = Some [])
        \<and> (q_income q = None \<or> q_income q = Some [])
       \<longrightarrow> apply_filters df q = df)
   \<and> (df \<noteq> [] \<longrightarrow> (\<exists>res. support_by df no_filters = Inr res \<and> count res = length df))"
proof -
  have a: "filter_step col None df = df" "filter_step col (Some []) df = df"
    by (simp_all add: filter_step_def)
  have d: "(q_gender q = None \<or> q_gender q = Some []) \<and> (q_race q = None \<or> q_race q = Some [])
        \<and> (q_age_group q = None \<or> q_age_group q = Some [])
        \<and> (q_education q = None \<or> q_education q = Some [])
        \<and> (q_income q = None \<or> q_income q = Some [])
       \<longrightarrow> apply_filters df q = df"
    by (auto simp: apply_filters_def filter_step_def)
  have c: "apply_filters df no_filters = df"
    by (simp add: apply_filters_def filter_step_def no_filters_def)
  have ok: "\<not> str_accessor_error df no_filters"
    by (simp add: str_accessor_error_def truthy_def no_filters_def)
  have e: "df \<noteq> [] \<longrightarrow> (\<exists>res. support_by df no_filters = Inr res \<and> count res = length df)"
    by (simp add: support_by_def ok c Let_def)
  from a c d e show ?thesis by blast
qed

theorem empty_filter_is_identity_witness:
  "sample_df \<noteq> []
   \<and> apply_filters sample_df (no_filters\<lparr>q_gender := Some [], q_income := Some []\<rparr>) = sample_df
   \<and> (\<exists>res. support_by sample_df no_filters = Inr res \<and> count res = 4)"
proof -
  have ne: "sample_df \<noteq> []" by code_simp
  have len: "length sample_df = 4" by code_simp
  have f: "q_gender (no_filters\<lparr>q_gender := Some [], q_income := Some []\<rparr>) = Some []"
    "q_race (no_filters\<lparr>q_gender := Some [], q_income := Some []\<rparr>) = None"
    "q_age_group (no_filters\<lparr>q_gender := Some [], q_income := Some []\<rparr>) = None"
    "q_education (no_filters\<lparr>q_gender := Some [], q_income := Some []\<rparr>) = None"
    "q_income (no_filters\<lparr>q_gender := Some [], q_income := Some []\<rparr>) = Some []"
    by (simp_all add: no_filters_def)
  from empty_filter_is_identity
         [where col = gender and df = sample_df
            and q = "no_filters\<lparr>q_gender := Some [], q_income := Some []\<rparr>"]
       ne len f
  show ?thesis by simp
qed

text \<open>
  Claim C10. For each of the five grouping columns the entries of \<^verbatim>\<open>support_grouped\<close> come
  in strictly ascending order of the group value, which fixes their order for a given
  table, and each entry has the keys \<^verbatim>\<open>group_by\<close>, \<^verbatim>\<open>count\<close> and \<^verbatim>\<open>support_rate\<close>: the group
  value is stored under the name of the column, and no key \<^verbatim>\<open>group_value\<close> exists.
\<close>

theorem grouped_sorted_and_keyed_by_column:
  assumes "group_by \<in> valid_columns"
  shows "\<exists>col entries ks.
           column group_by = Some col
           \<and> support_grouped df group_by = Inr entries
           \<and> map (\<lambda>e. map_of e group_by) entries = map (\<lambda>k. Some (JStr k)) ks
           \<and> sorted ks \<and> distinct ks \<and> set ks = set (List.map_filter col df)
           \<and> list_all (\<lambda>e. map fst e = [group_by, ''count'', ''support_rate'']
                              \<and> map_of e ''group_value'' = None) entries"
proof -
  from assms obtain col where col: "column group_by = Some col"
    using valid_column by blast
  from assms have ne: "group_by \<noteq> ''count''" "group_by \<noteq> ''group_value''"
    using valid_not_count by blast+
  let ?ks = "group_keys col df"
  let ?entries = "map (to_record group_by) (agg_count_mean (groupby col df))"
  have res: "support_grouped df group_by = Inr ?entries"
    using assms col by (simp add: support_grouped_def)
  have keys: "map (\<lambda>e. map_of e group_by) ?entries = map (\<lambda>k. Some (JStr k)) ?ks"
    unfolding records_eq using ne by (simp add: comp_def)
  have shape: "list_all (\<lambda>e. map fst e = [group_by, ''count'', ''support_rate'']
                              \<and> map_of e ''group_value'' = None) ?entries"
    unfolding records_eq using ne by (simp add: list_all_iff)
  from col res keys shape group_keys_sorted [of col df] group_keys_distinct [of col df]
       group_keys_set' [of col df]
  show ?thesis by blast
qed

theorem grouped_sorted_and_keyed_by_column_witness:
  "''gender'' \<in> valid_columns
   \<and> support_grouped (rev sample_df) ''gender''
       = Inr [[(''gender'', JStr ''F''), (''count'', JInt 2), (''support_rate'', JFloat (Fin (1 / 2)))],
              [(''gender'', JStr ''M''), (''count'', JInt 2), (''support_rate'', JFloat (Fin 1))]]
   \<and> (\<exists>col entries ks.
           column ''gender'' = Some col
           \<and> support_grouped (rev sample_df) ''gender'' = Inr entries
           \<and> map (\<lambda>e. map_of e ''gender'') entries = map (\<lambda>k. Some (JStr k)) ks
           \<and> sorted ks \<and> distinct ks \<and> set ks = set (List.map_filter col (rev sample_df))
           \<and> list_all (\<lambda>e. map fst e = [''gender'', ''count'', ''support_rate'']
                              \<and> map_of e ''group_value'' = None) entries)"
proof -
  have h: "''gender'' \<in> valid_columns" by (simp add: valid_columns_def)
  have ev: "support_grouped (rev sample_df) ''gender''
       = Inr [[(''gender'', JStr ''F''), (''count'', JInt 2), (''support_rate'', JFloat (Fin (1 / 2)))],
              [(''gender'', JStr ''M''), (''count'', JInt 2), (''support_rate'', JFloat (Fin 1))]]"
    by code_simp
  from h ev grouped_sorted_and_keyed_by_column [OF h, of "rev sample_df"] show ?thesis by blast
qed

end
